theory Spec2Isabelle
  imports Complex_Main
begin

section \<open>Data model\<close>

text \<open>
  The guide component reads the host document and the window, and computes where the
  highlight and the tooltip go. JavaScript numbers are modelled as exact rationals:
  every quantity below is a sum, a difference, a comparison, a halving or a product with
  a decimal constant of finite pixel values; NaN and the infinities are outside the
  model (the one use of \<open>-Infinity\<close>, as the initial best score, is the value \<open>None\<close>).
  An optional property (\<open>undefined\<close> when missing) is an \<open>option\<close>.
\<close>

type_synonym num = rat

text \<open>A value used as a condition: a string is truthy when it is present and not empty.\<close>

definition truthy :: "string option \<Rightarrow> bool" where
  "truthy s = (case s of None \<Rightarrow> False | Some v \<Rightarrow> v \<noteq> [])"

text \<open>The object pushed per resolved element: the six fields read from the DOMRect.\<close>

record rect =
  rect_top :: num
  rect_left :: num
  rect_right :: num
  rect_bottom :: num
  rect_width :: num
  rect_height :: num

text \<open>An element is what the resolver reads of it: its bounding client rectangle.\<close>

record element =
  getBoundingClientRect :: rect

text \<open>An exception of the DOM: \<open>querySelector\<close> throws a \<open>SyntaxError\<close> on a string that
  is not a valid selector (for instance \<open>.1box\<close>: a class name that starts with a digit,
  unescaped).\<close>

datatype dom_error = SyntaxError

text \<open>
  The document is its two lookups: \<open>getElementById\<close> by identifier, which never throws,
  and \<open>querySelector\<close> by selector string, which throws or returns the first match in
  document order, if any. No function of the component catches an exception.
\<close>

record document =
  getElementById :: "string \<Rightarrow> element option"
  querySelector :: "string \<Rightarrow> dom_error + element option"

record window =
  innerWidth :: num
  innerHeight :: num
  scrollX :: num
  scrollY :: num

record target =
  target_id :: "string option"
  target_className :: "string option"

text \<open>The object returned by \<open>getCombinedRect\<close>.\<close>

record region =
  region_top :: num
  region_left :: num
  region_width :: num
  region_height :: num
  viewportTop :: num
  viewportLeft :: num
  viewportRight :: num
  viewportBottom :: num
  individualRects :: "rect list"

section \<open>Target resolver\<close>

text \<open>\<open>getTargetElement\<close>: a missing descriptor gives null; a truthy id is looked up by id
  and nothing else is tried; otherwise a truthy className is looked up as the selector
  \<open>.className\<close>, and an exception of that lookup leaves the function; otherwise null.\<close>

definition getTargetElement :: "document \<Rightarrow> target option \<Rightarrow> dom_error + element option" where
  "getTargetElement doc tgt =
     (case tgt of
        None \<Rightarrow> Inr None
      | Some t \<Rightarrow>
          if truthy (target_id t) then Inr (getElementById doc (the (target_id t)))
          else if truthy (target_className t)
               then querySelector doc (''.'' @ the (target_className t))
          else Inr None)"

text \<open>The \<open>for ... of\<close> loop of \<open>getCombinedRect\<close>: one rectangle per descriptor that
  resolved, in the order of the descriptors; the first lookup that throws ends the loop
  and the function.\<close>

fun collectRects :: "document \<Rightarrow> target option list \<Rightarrow> dom_error + rect list" where
  "collectRects doc [] = Inr []"
| "collectRects doc (t # ts) =
     (case getTargetElement doc t of
        Inl err \<Rightarrow> Inl err
      | Inr None \<Rightarrow> collectRects doc ts
      | Inr (Some e) \<Rightarrow>
          (case collectRects doc ts of
             Inl err \<Rightarrow> Inl err
           | Inr rects \<Rightarrow>
               Inr ((let r = getBoundingClientRect e in
                     \<lparr>rect_top = rect_top r, rect_left = rect_left r,
                      rect_right = rect_right r, rect_bottom = rect_bottom r,
                      rect_width = rect_width r, rect_height = rect_height r\<rparr>) # rects)))"

definition getCombinedRect ::
    "document \<Rightarrow> window \<Rightarrow> target option list \<Rightarrow> dom_error + region option" where
  "getCombinedRect doc w targets =
     (case collectRects doc targets of
        Inl err \<Rightarrow> Inl err
      | Inr rects \<Rightarrow>
          if length rects = 0 then Inr None
          else
            let minLeft = Min (set (map rect_left rects));
                minTop = Min (set (map rect_top rects));
                maxRight = Max (set (map rect_right rects));
                maxBottom = Max (set (map rect_bottom rects))
            in Inr (Some \<lparr>region_top = minTop + scrollY w,
                          region_left = minLeft + scrollX w,
                          region_width = maxRight - minLeft,
                          region_height = maxBottom - minTop,
                          viewportTop = minTop,
                          viewportLeft = minLeft,
                          viewportRight = maxRight,
                          viewportBottom = maxBottom,
                          individualRects = rects\<rparr>))"

section \<open>Placement engine\<close>

text \<open>One entry of the \<open>positions\<close> object of \<open>calculatePosition\<close>.\<close>

record candidate =
  score :: num
  fits :: bool
  cand_top :: num
  cand_left :: num

text \<open>An object keyed by strings, as the list of its entries in insertion order (the
  order \<open>Object.entries\<close> enumerates).\<close>

type_synonym positions = "(string \<times> candidate) list"

record tooltipStyle =
  tooltip_top :: num
  tooltip_left :: num
  tooltip_width :: num

record arrowStyle =
  arrow_x :: num
  arrow_y :: num
  rotation :: num

record positionInfo =
  placement :: string
  tooltip :: tooltipStyle
  arrow :: arrowStyle
  targetCenter :: "num \<times> num"

definition tooltipMargin :: num where "tooltipMargin = 20"
definition tooltipWidth :: num where "tooltipWidth = 320"
definition tooltipHeight :: num where "tooltipHeight = 250"
definition viewportPadding :: num where "viewportPadding = 20"
definition highlightPadding :: num where "highlightPadding = 10"

text \<open>The object literal \<open>positions\<close> built by \<open>calculatePosition\<close>, keys in the order
  they are written.\<close>

definition buildPositions :: "window \<Rightarrow> region \<Rightarrow> positions" where
  "buildPositions w targetRect =
     (let viewportWidth = innerWidth w;
          viewportHeight = innerHeight w;
          targetTop = viewportTop targetRect - highlightPadding;
          targetBottom = viewportTop targetRect + region_height targetRect + highlightPadding;
          targetLeft = viewportLeft targetRect - highlightPadding;
          targetRight = viewportLeft targetRect + region_width targetRect + highlightPadding;
          targetCenterX = viewportLeft targetRect + region_width targetRect / 2;
          targetCenterY = viewportTop targetRect + region_height targetRect / 2;
          spaceTop = targetTop - viewportPadding;
          spaceBottom = viewportHeight - targetBottom - viewportPadding;
          spaceLeft = targetLeft - viewportPadding;
          spaceRight = viewportWidth - targetRight - viewportPadding
      in
      [(''top'',
          \<lparr>score = spaceTop * 1.2,
           fits = (spaceTop \<ge> tooltipHeight + tooltipMargin),
           cand_top = targetTop - tooltipMargin - tooltipHeight,
           cand_left = targetCenterX - tooltipWidth / 2\<rparr>),
       (''bottom'',
          \<lparr>score = spaceBottom * 1.2,
           fits = (spaceBottom \<ge> tooltipHeight + tooltipMargin),
           cand_top = targetBottom + tooltipMargin,
           cand_left = targetCenterX - tooltipWidth / 2\<rparr>),
       (''left'',
          \<lparr>score = spaceLeft,
           fits = (spaceLeft \<ge> tooltipWidth + tooltipMargin),
           cand_top = targetCenterY - tooltipHeight / 2,
           cand_left = targetLeft - tooltipMargin - tooltipWidth\<rparr>),
       (''right'',
          \<lparr>score = spaceRight,
           fits = (spaceRight \<ge> tooltipWidth + tooltipMargin),
           cand_top = targetCenterY - tooltipHeight / 2,
           cand_left = targetRight + tooltipMargin\<rparr>),
       (''top-left'',
          \<lparr>score = spaceTop * 1.1,
           fits = (spaceTop \<ge> tooltipHeight + tooltipMargin \<and> spaceLeft \<ge> 0),
           cand_top = targetTop - tooltipMargin - tooltipHeight,
           cand_left = max viewportPadding targetLeft\<rparr>),
       (''top-right'',
          \<lparr>score = spaceTop * 1.1,
           fits = (spaceTop \<ge> tooltipHeight + tooltipMargin \<and> spaceRight \<ge> 0),
           cand_top = targetTop - tooltipMargin - tooltipHeight,
           cand_left = min (targetRight - tooltipWidth)
                           (viewportWidth - tooltipWidth - viewportPadding)\<rparr>),
       (''bottom-left'',
          \<lparr>score = spaceBottom * 1.1,
           fits = (spaceBottom \<ge> tooltipHeight + tooltipMargin \<and> spaceLeft \<ge> 0),
           cand_top = targetBottom + tooltipMargin,
           cand_left = max viewportPadding targetLeft\<rparr>),
       (''bottom-right'',
          \<lparr>score = spaceBottom * 1.1,
           fits = (spaceBottom \<ge> tooltipHeight + tooltipMargin \<and> spaceRight \<ge> 0),
           cand_top = targetBottom + tooltipMargin,
           cand_left = min (targetRight - tooltipWidth)
                           (viewportWidth - tooltipWidth - viewportPadding)\<rparr>)])"

definition priorityOrder :: "string list" where
  "priorityOrder = [''top'', ''bottom'', ''top-left'', ''top-right'',
                    ''bottom-left'', ''bottom-right'', ''right'', ''left'']"

text \<open>\<open>positions[pos] && positions[pos].fits\<close>: a key that is not in the table has no
  entry, and no entry counts as not fitting.\<close>

definition fitsAt :: "positions \<Rightarrow> string \<Rightarrow> bool" where
  "fitsAt ps pos = (case map_of ps pos of None \<Rightarrow> False | Some d \<Rightarrow> fits d)"

definition adjustedScore :: "candidate \<Rightarrow> num" where
  "adjustedScore d = score d + (if fits d then 1000 else 0)"

text \<open>\<open>adjustedScore > bestScore\<close>, where the best score starts as \<open>-Infinity\<close>
  (\<open>None\<close>), below every number.\<close>

fun exceeds :: "num \<Rightarrow> num option \<Rightarrow> bool" where
  "exceeds a None = True"
| "exceeds a (Some b) = (a > b)"

text \<open>The second loop of \<open>findBestPosition\<close>, over \<open>Object.entries(positions)\<close>, with
  its two variables \<open>bestPos\<close> and \<open>bestScore\<close>.\<close>

fun scanBest :: "positions \<Rightarrow> string \<Rightarrow> num option \<Rightarrow> string" where
  "scanBest [] bestPos bestScore = bestPos"
| "scanBest ((pos, d) # rest) bestPos bestScore =
     (if exceeds (adjustedScore d) bestScore
      then scanBest rest pos (Some (adjustedScore d))
      else scanBest rest bestPos bestScore)"

definition findBestPosition :: "positions \<Rightarrow> string" where
  "findBestPosition ps =
     (case find (fitsAt ps) priorityOrder of
        Some pos \<Rightarrow> pos
      | None \<Rightarrow> scanBest ps ''top'' None)"

text \<open>The block of \<open>calculatePosition\<close> that determines \<open>placement\<close>. A preferred
  position that is not an own key of the table has no \<open>fits\<close> to read, and goes the way
  of one that does not fit.\<close>

definition selectPlacement :: "positions \<Rightarrow> string \<Rightarrow> string" where
  "selectPlacement ps preferredPosition =
     (if preferredPosition \<noteq> [] \<and> preferredPosition \<noteq> ''auto''
         \<and> map_of ps preferredPosition \<noteq> None
      then (if fitsAt ps preferredPosition then preferredPosition
            else findBestPosition ps)
      else findBestPosition ps)"

definition calculateArrowPosition :: "string \<Rightarrow> region \<Rightarrow> arrowStyle" where
  "calculateArrowPosition plc targetRect =
     (let targetCenterX = viewportLeft targetRect + region_width targetRect / 2;
          targetCenterY = viewportTop targetRect + region_height targetRect / 2;
          targetTopEdge = viewportTop targetRect - highlightPadding;
          targetBottomEdge = viewportTop targetRect + region_height targetRect + highlightPadding;
          targetLeftEdge = viewportLeft targetRect - highlightPadding;
          targetRightEdge = viewportLeft targetRect + region_width targetRect + highlightPadding;
          gap = 8
      in
      if plc \<in> {''top'', ''top-left'', ''top-right''}
        then \<lparr>arrow_x = targetCenterX, arrow_y = targetTopEdge - gap, rotation = 180\<rparr>
      else if plc \<in> {''bottom'', ''bottom-left'', ''bottom-right''}
        then \<lparr>arrow_x = targetCenterX, arrow_y = targetBottomEdge + gap, rotation = 0\<rparr>
      else if plc = ''left''
        then \<lparr>arrow_x = targetLeftEdge - gap, arrow_y = targetCenterY, rotation = - 90\<rparr>
      else if plc = ''right''
        then \<lparr>arrow_x = targetRightEdge + gap, arrow_y = targetCenterY, rotation = 90\<rparr>
      else \<lparr>arrow_x = targetCenterX, arrow_y = targetBottomEdge + gap, rotation = 0\<rparr>)"

text \<open>\<open>calculatePosition(targetRect, preferredPosition = 'auto')\<close>: the window is the
  first argument here; a missing second argument takes the default. Reading
  \<open>positions[placement]\<close> for a placement that is not a key would throw: that is the
  last \<open>None\<close> below, which \<open>calculatePosition_returns\<close> shows is never reached.\<close>

definition calculatePosition :: "window \<Rightarrow> region option \<Rightarrow> string option \<Rightarrow> positionInfo option" where
  "calculatePosition w targetRectOpt preferredPositionOpt =
     (case targetRectOpt of
        None \<Rightarrow> None
      | Some targetRect \<Rightarrow>
          let preferredPosition =
                (case preferredPositionOpt of None \<Rightarrow> ''auto'' | Some p \<Rightarrow> p);
              viewportWidth = innerWidth w;
              viewportHeight = innerHeight w;
              targetCenterX = viewportLeft targetRect + region_width targetRect / 2;
              targetCenterY = viewportTop targetRect + region_height targetRect / 2;
              ps = buildPositions w targetRect;
              plc = selectPlacement ps preferredPosition
          in (case map_of ps plc of
                None \<Rightarrow> None
              | Some d \<Rightarrow>
                  let tooltipTop = max viewportPadding
                        (min (cand_top d) (viewportHeight - tooltipHeight - viewportPadding));
                      tooltipLeft = max viewportPadding
                        (min (cand_left d) (viewportWidth - tooltipWidth - viewportPadding));
                      arrowInfo = calculateArrowPosition plc targetRect
                  in Some \<lparr>placement = plc,
                           tooltip = \<lparr>tooltip_top = tooltipTop, tooltip_left = tooltipLeft,
                                      tooltip_width = tooltipWidth\<rparr>,
                           arrow = arrowInfo,
                           targetCenter = (targetCenterX, targetCenterY)\<rparr>))"

section \<open>Tour state and the retry controller\<close>

text \<open>A step of the tour, with the properties the controller reads (title, content and
  nextLabel are only displayed). \<open>onNext\<close> says whether the step carries a custom
  function.\<close>

record step =
  step_no :: num
  step_id :: "string option"
  step_className :: "string option"
  targets :: "target option list option"
  path :: "string option"
  nextPath :: "string option"
  onNext :: bool
  position :: "string option"

text \<open>The props of the component. The callbacks \<open>onComplete\<close>, \<open>onSkip\<close> and
  \<open>onStepChange\<close> are only ever called through \<open>?.\<close>, so a call of them is recorded
  as an event whether or not the host supplied one; \<open>onNavigate\<close> is tested before it
  is called, and the prop says whether the host supplied it. The host passes the same
  props, with the same step objects, to every render.\<close>

record props =
  steps :: "step list"
  isOpen :: bool
  onNavigate :: bool

text \<open>What a timer does when it fires. The retry timer calls the
  \<open>updateTargetPosition\<close> that set it: a closure of the render it was made in, which keeps
  that render's \<open>currentStep\<close>, \<open>currentStepIndex\<close> and \<open>isLastStep\<close> whatever the step
  is when the timer fires; the render is given by its step index. The timer of
  \<open>handleNext\<close> sets the step index and calls \<open>onStepChange\<close>.\<close>

datatype callback =
    RetryUpdate nat
  | Advance nat "num option" "string option"

text \<open>What a handler does to the outside, in the order it does it: calls of the step's
  \<open>onNext\<close> and of the host's callbacks, the console warning (with the step number),
  and timers set (callback and delay in ms).\<close>

datatype event =
    StepOnNext
  | OnComplete
  | OnSkip
  | OnStepChange "num option" "string option"
  | OnNavigate string
  | Warn num
  | SetTimeout callback nat

text \<open>The component's state and the retry counter (\<open>retryCountRef.current\<close>): one
  counter for the component, shared by every render and every timer.\<close>

record guide =
  currentStepIndex :: nat
  targetRect :: "region option"
  isVisible :: bool
  retryCount :: nat

definition maxRetries :: nat where "maxRetries = 15"

text \<open>\<open>xs[i]\<close>, \<open>undefined\<close> out of range.\<close>

definition at_index :: "'a list \<Rightarrow> nat \<Rightarrow> 'a option" where
  "at_index xs i = (if i < length xs then Some (xs ! i) else None)"

text \<open>\<open>[...steps].sort((a, b) => a.step - b.step)\<close>: a stable sort by step number.\<close>

definition sortedSteps :: "props \<Rightarrow> step list" where
  "sortedSteps p = sort_key step_no (steps p)"

text \<open>\<open>currentStep\<close> and \<open>isLastStep\<close> of the latest render.\<close>

definition currentStep :: "props \<Rightarrow> guide \<Rightarrow> step option" where
  "currentStep p st = at_index (sortedSteps p) (currentStepIndex st)"

definition isLastStep :: "props \<Rightarrow> guide \<Rightarrow> bool" where
  "isLastStep p st = (int (currentStepIndex st) = int (length (sortedSteps p)) - 1)"

text \<open>The same two values in the render of step index \<open>i\<close>, as a closure made in that
  render reads them.\<close>

definition stepAt :: "props \<Rightarrow> nat \<Rightarrow> step option" where
  "stepAt p i = at_index (sortedSteps p) i"

definition lastIndex :: "props \<Rightarrow> nat \<Rightarrow> bool" where
  "lastIndex p i = (int i = int (length (sortedSteps p)) - 1)"

definition getStepTargets :: "step \<Rightarrow> target option list" where
  "getStepTargets s =
     (case targets s of
        Some ts \<Rightarrow> ts
      | None \<Rightarrow>
          if truthy (step_id s) \<or> truthy (step_className s)
          then [Some \<lparr>target_id = step_id s, target_className = step_className s\<rparr>]
          else [])"

text \<open>\<open>skipToNextValidStep\<close> of the render of step index \<open>i\<close>: \<open>currentStepIndex\<close> and
  \<open>isLastStep\<close> are that render's; the index that is set is the component's.\<close>

definition skipToNextValidStep :: "props \<Rightarrow> nat \<Rightarrow> guide \<Rightarrow> event list \<times> guide" where
  "skipToNextValidStep p i st =
     (if lastIndex p i then ([OnComplete], st)
      else
        let nextIndex = i + 1;
            nextStep = at_index (sortedSteps p) nextIndex;
            nextPathOpt = (case nextStep of None \<Rightarrow> None | Some n \<Rightarrow> path n)
        in ([OnStepChange (map_option step_no nextStep) nextPathOpt]
              @ (if truthy nextPathOpt \<and> onNavigate p then [OnNavigate (the nextPathOpt)] else []),
            st\<lparr>currentStepIndex := nextIndex\<rparr>))"

text \<open>\<open>updateTargetPosition(withRetry)\<close> of the render of step index \<open>i\<close>, on the
  document and window as they are when it runs. An exception of the resolver leaves it
  before anything is changed.\<close>

definition updateTargetPosition ::
    "props \<Rightarrow> nat \<Rightarrow> document \<Rightarrow> window \<Rightarrow> bool \<Rightarrow> guide
       \<Rightarrow> dom_error + event list \<times> guide" where
  "updateTargetPosition p i doc w withRetry st =
     (case stepAt p i of
        None \<Rightarrow> Inr ([], st)
      | Some cur \<Rightarrow>
          (case getCombinedRect doc w (getStepTargets cur) of
             Inl err \<Rightarrow> Inl err
           | Inr (Some combinedRect) \<Rightarrow>
               Inr ([], st\<lparr>targetRect := Some combinedRect, retryCount := 0, isVisible := True\<rparr>)
           | Inr None \<Rightarrow>
               if withRetry \<and> retryCount st < maxRetries
               then Inr ([SetTimeout (RetryUpdate i) 200], st\<lparr>retryCount := retryCount st + 1\<rparr>)
               else if retryCount st \<ge> maxRetries
               then (case skipToNextValidStep p i (st\<lparr>retryCount := 0\<rparr>) of
                       (es, st') \<Rightarrow> Inr (Warn (step_no cur) # es, st'))
               else Inr ([], st)))"

text \<open>\<open>handlePositionUpdate\<close>, the listener of scroll and resize. The effect that adds
  it removes the listener of the step before, so the one that runs is the latest
  render's.\<close>

definition handlePositionUpdate ::
    "props \<Rightarrow> document \<Rightarrow> window \<Rightarrow> guide \<Rightarrow> dom_error + event list \<times> guide" where
  "handlePositionUpdate p doc w st =
     updateTargetPosition p (currentStepIndex st) doc w False st"

text \<open>\<open>handleNext\<close>, of the latest render (the button is rendered anew with each). The
  delayed part is the timer's callback: it has not run when the handler returns.\<close>

definition handleNext :: "props \<Rightarrow> guide \<Rightarrow> event list \<times> guide" where
  "handleNext p st =
     (let cur = currentStep p st;
          ran = (case cur of Some c \<Rightarrow> (if onNext c then [StepOnNext] else []) | None \<Rightarrow> [])
      in
      if isLastStep p st then (ran @ [OnComplete], st)
      else
        let nextIndex = currentStepIndex st + 1;
            nextStep = at_index (sortedSteps p) nextIndex;
            curNextPath = (case cur of None \<Rightarrow> None | Some c \<Rightarrow> nextPath c);
            curPath = (case cur of None \<Rightarrow> None | Some c \<Rightarrow> path c);
            nextStepPath = (case nextStep of None \<Rightarrow> None | Some n \<Rightarrow> path n);
            needsNavigation =
              (truthy curNextPath \<or> (truthy nextStepPath \<and> nextStepPath \<noteq> curPath));
            targetPath = (if truthy curNextPath then curNextPath else nextStepPath)
        in
        if needsNavigation \<and> truthy targetPath \<and> onNavigate p
        then (ran @ [OnNavigate (the targetPath),
                     SetTimeout (Advance nextIndex (map_option step_no nextStep) nextStepPath) 50],
              st)
        else (ran @ [OnStepChange (map_option step_no nextStep) nextStepPath],
              st\<lparr>currentStepIndex := nextIndex\<rparr>))"

text \<open>A timer fires and runs its callback.\<close>

fun fire ::
    "callback \<Rightarrow> props \<Rightarrow> document \<Rightarrow> window \<Rightarrow> guide \<Rightarrow> dom_error + event list \<times> guide" where
  "fire (RetryUpdate i) p doc w st = updateTargetPosition p i doc w True st"
| "fire (Advance n s pa) p doc w st = Inr ([OnStepChange s pa], st\<lparr>currentStepIndex := n\<rparr>)"

section \<open>The event loop\<close>

text \<open>
  The component between two tasks of the page's event loop: its state, the timers that
  are set and have not fired (oldest first; the component clears none of them while it is
  mounted, whatever the step), and what it has done to the outside so far.
\<close>

record system =
  state :: guide
  pending :: "callback list"
  trace :: "event list"

text \<open>A task of the event loop: the effect that follows the render of a new step (or of
  the opening) and calls \<open>updateTargetPosition(true)\<close>, a pending timer firing (by its
  place in the list), a scroll or resize event, a click on Next.\<close>

datatype task =
    RunEffect
  | FireTimer nat
  | ScrollOrResize
  | ClickNext

fun timersOf :: "event list \<Rightarrow> callback list" where
  "timersOf [] = []"
| "timersOf (SetTimeout cb d # es) = cb # timersOf es"
| "timersOf (e # es) = timersOf es"

text \<open>What a handler returned becomes the new state; its timers join the pending
  ones.\<close>

definition commit :: "event list \<times> guide \<Rightarrow> system \<Rightarrow> system" where
  "commit r s = s\<lparr>state := snd r, pending := pending s @ timersOf (fst r),
                  trace := trace s @ fst r\<rparr>"

definition commitResult :: "dom_error + event list \<times> guide \<Rightarrow> system \<Rightarrow> dom_error + system" where
  "commitResult r s = (case r of Inl err \<Rightarrow> Inl err | Inr x \<Rightarrow> Inr (commit x s))"

text \<open>The Next button exists when the tooltip is rendered: the tour is open, there is a
  current step and a target rectangle (that of an earlier step will do: \<open>isVisible\<close> is
  not read).\<close>

definition tooltipRendered :: "props \<Rightarrow> guide \<Rightarrow> bool" where
  "tooltipRendered p st = (isOpen p \<and> currentStep p st \<noteq> None \<and> targetRect st \<noteq> None)"

text \<open>One task, on the document as it is then. The effect and the listeners are those of
  the latest render. A task that cannot happen (a timer that is not pending, a click with
  no button, an event with the tour closed) changes nothing.\<close>

definition runTask :: "props \<Rightarrow> window \<Rightarrow> task \<times> document \<Rightarrow> system \<Rightarrow> dom_error + system" where
  "runTask p w td s =
     (case td of (t, doc) \<Rightarrow>
        (case t of
           RunEffect \<Rightarrow>
             if \<not> isOpen p
             then Inr (s\<lparr>state := (state s)\<lparr>currentStepIndex := 0, isVisible := False,
                                             targetRect := None\<rparr>\<rparr>)
             else commitResult
                    (updateTargetPosition p (currentStepIndex (state s)) doc w True (state s)) s
         | FireTimer k \<Rightarrow>
             if k < length (pending s)
             then commitResult (fire (pending s ! k) p doc w (state s))
                    (s\<lparr>pending := take k (pending s) @ drop (Suc k) (pending s)\<rparr>)
             else Inr s
         | ScrollOrResize \<Rightarrow>
             if isOpen p then commitResult (handlePositionUpdate p doc w (state s)) s
             else Inr s
         | ClickNext \<Rightarrow>
             if tooltipRendered p (state s) then Inr (commit (handleNext p (state s)) s)
             else Inr s))"

text \<open>A run of tasks, in any order the page may have them happen. It ends at the first
  exception that no one catches: what the page does after that is not described.\<close>

fun run :: "props \<Rightarrow> window \<Rightarrow> (task \<times> document) list \<Rightarrow> system \<Rightarrow> dom_error + system" where
  "run p w [] s = Inr s"
| "run p w (td # rest) s =
     (case runTask p w td s of Inl err \<Rightarrow> Inl err | Inr s' \<Rightarrow> run p w rest s')"

section \<open>Example inputs\<close>

definition scenarioA_window :: window where
  "scenarioA_window = \<lparr>innerWidth = 1920, innerHeight = 1080, scrollX = 0, scrollY = 0\<rparr>"

definition scenarioA_rect :: rect where
  "scenarioA_rect = \<lparr>rect_top = 100, rect_left = 100, rect_right = 200, rect_bottom = 140,
                      rect_width = 100, rect_height = 40\<rparr>"

definition scenarioA_document :: document where
  "scenarioA_document =
     \<lparr>getElementById = (\<lambda>i. if i = ''target'' then Some \<lparr>getBoundingClientRect = scenarioA_rect\<rparr>
                             else None),
      querySelector = (\<lambda>s. Inr None)\<rparr>"

definition scenarioA_target :: target where
  "scenarioA_target = \<lparr>target_id = Some ''target'', target_className = None\<rparr>"

definition scenarioA_region :: region where
  "scenarioA_region =
     \<lparr>region_top = 100, region_left = 100, region_width = 100, region_height = 40,
      viewportTop = 100, viewportLeft = 100, viewportRight = 200, viewportBottom = 140,
      individualRects = [scenarioA_rect]\<rparr>"

definition small_window :: window where
  "small_window = \<lparr>innerWidth = 300, innerHeight = 200, scrollX = 0, scrollY = 0\<rparr>"

definition other_rect :: rect where
  "other_rect = \<lparr>rect_top = 50, rect_left = 300, rect_right = 400, rect_bottom = 90,
                  rect_width = 100, rect_height = 40\<rparr>"

definition scrolled_window :: window where
  "scrolled_window = \<lparr>innerWidth = 1920, innerHeight = 1080, scrollX = 5, scrollY = 250\<rparr>"

text \<open>A document with two elements: \<open>target\<close>, found by id, and one of class \<open>box\<close>,
  found by the selector \<open>.box\<close>; no element has the id \<open>missing\<close>; the string
  \<open>.1box\<close> is not a selector.\<close>

definition two_document :: document where
  "two_document =
     \<lparr>getElementById = (\<lambda>i. if i = ''target'' then Some \<lparr>getBoundingClientRect = scenarioA_rect\<rparr>
                             else None),
      querySelector = (\<lambda>s. if s = ''.box'' then Inr (Some \<lparr>getBoundingClientRect = other_rect\<rparr>)
                            else if s = ''.1box'' then Inl SyntaxError
                            else Inr None)\<rparr>"

definition box_target :: target where
  "box_target = \<lparr>target_id = None, target_className = Some ''box''\<rparr>"

definition missing_box_target :: target where
  "missing_box_target = \<lparr>target_id = Some ''missing'', target_className = Some ''box''\<rparr>"

definition step_a :: step where
  "step_a = \<lparr>step_no = 1, step_id = Some ''ghost'', step_className = None, targets = None,
              path = Some ''/a'', nextPath = None, onNext = False, position = None\<rparr>"

definition step_b :: step where
  "step_b = \<lparr>step_no = 2, step_id = Some ''target'', step_className = None, targets = None,
              path = Some ''/b'', nextPath = None, onNext = False, position = None\<rparr>"

definition tour_props :: props where
  "tour_props = \<lparr>steps = [step_b, step_a], isOpen = True, onNavigate = True\<rparr>"

definition opened :: guide where
  "opened = \<lparr>currentStepIndex = 0, targetRect = None, isVisible = False, retryCount = 0\<rparr>"

definition digit_class_target :: target where
  "digit_class_target = \<lparr>target_id = None, target_className = Some ''1box''\<rparr>"

definition started :: system where
  "started = \<lparr>state = opened, pending = [], trace = []\<rparr>"

definition retries_spent :: guide where
  "retries_spent =
     ((\<lambda>s. snd (projr (updateTargetPosition tour_props 0 scenarioA_document scenarioA_window
                          True s))) ^^ 15)
       opened"






section \<open>Properties of the placement engine\<close>

lemma buildPositions_keys:
  "map fst (buildPositions w r) =
     [''top'', ''bottom'', ''left'', ''right'', ''top-left'', ''top-right'',
      ''bottom-left'', ''bottom-right'']"
  by (simp add: buildPositions_def Let_def)

lemma find_priority_mem: "find P priorityOrder = Some pos \<Longrightarrow> pos \<in> set priorityOrder"
  by (auto simp: find_Some_iff)

lemma scanBest_mem: "scanBest ps b s \<in> insert b (fst ` set ps)"
  by (induction ps b s rule: scanBest.induct) (auto split: if_splits)

lemma findBestPosition_mem:
  "findBestPosition ps \<in> set priorityOrder \<union> fst ` set ps"
  unfolding findBestPosition_def
  using scanBest_mem [of ps "''top''" None]
  by (auto split: option.splits dest: find_priority_mem simp: priorityOrder_def)

lemma selectPlacement_mem:
  "selectPlacement ps pref \<in> set priorityOrder \<union> fst ` set ps"
  unfolding selectPlacement_def
  using findBestPosition_mem [of ps]
  by (auto simp: map_of_eq_None_iff)

lemma buildPositions_keys_set: "fst ` set (buildPositions w r) = set priorityOrder"
proof -
  have "fst ` set (buildPositions w r) = set (map fst (buildPositions w r))" by simp
  also have "\<dots> = set priorityOrder"
    unfolding buildPositions_keys priorityOrder_def by auto
  finally show ?thesis .
qed

lemma selectPlacement_key:
  "map_of (buildPositions w r) (selectPlacement (buildPositions w r) pref) \<noteq> None"
  using selectPlacement_mem [of "buildPositions w r" pref]
  by (simp add: map_of_eq_None_iff buildPositions_keys_set)

lemma calculatePosition_returns:
  "\<exists>res. calculatePosition w (Some r) pref = Some res"
  using selectPlacement_key [of w r]
  by (auto simp: calculatePosition_def Let_def split: option.splits)

lemma scenarioA_resolves:
  "getCombinedRect scenarioA_document scenarioA_window [Some scenarioA_target]
     = Inr (Some scenarioA_region)"
  by (simp add: getCombinedRect_def getTargetElement_def truthy_def scenarioA_document_def
        scenarioA_target_def scenarioA_region_def scenarioA_rect_def scenarioA_window_def Let_def)

lemma scenarioA_positions:
  "buildPositions scenarioA_window scenarioA_region =
     [(''top'', \<lparr>score = 84, fits = False, cand_top = -180, cand_left = -10\<rparr>),
      (''bottom'', \<lparr>score = 1092, fits = True, cand_top = 170, cand_left = -10\<rparr>),
      (''left'', \<lparr>score = 70, fits = False, cand_top = -5, cand_left = -250\<rparr>),
      (''right'', \<lparr>score = 1690, fits = True, cand_top = -5, cand_left = 230\<rparr>),
      (''top-left'', \<lparr>score = 77, fits = False, cand_top = -180, cand_left = 90\<rparr>),
      (''top-right'', \<lparr>score = 77, fits = False, cand_top = -180, cand_left = -110\<rparr>),
      (''bottom-left'', \<lparr>score = 1001, fits = True, cand_top = 170, cand_left = 90\<rparr>),
      (''bottom-right'', \<lparr>score = 1001, fits = True, cand_top = 170, cand_left = -110\<rparr>)]"
  by (simp add: buildPositions_def Let_def scenarioA_window_def scenarioA_region_def
        tooltipMargin_def tooltipWidth_def tooltipHeight_def viewportPadding_def
        highlightPadding_def)

lemma small_positions:
  "buildPositions small_window scenarioA_region =
     [(''top'', \<lparr>score = 84, fits = False, cand_top = -180, cand_left = -10\<rparr>),
      (''bottom'', \<lparr>score = 36, fits = False, cand_top = 170, cand_left = -10\<rparr>),
      (''left'', \<lparr>score = 70, fits = False, cand_top = -5, cand_left = -250\<rparr>),
      (''right'', \<lparr>score = 70, fits = False, cand_top = -5, cand_left = 230\<rparr>),
      (''top-left'', \<lparr>score = 77, fits = False, cand_top = -180, cand_left = 90\<rparr>),
      (''top-right'', \<lparr>score = 77, fits = False, cand_top = -180, cand_left = -110\<rparr>),
      (''bottom-left'', \<lparr>score = 33, fits = False, cand_top = 170, cand_left = 90\<rparr>),
      (''bottom-right'', \<lparr>score = 33, fits = False, cand_top = 170, cand_left = -110\<rparr>)]"
  by (simp add: buildPositions_def Let_def small_window_def scenarioA_region_def
        tooltipMargin_def tooltipWidth_def tooltipHeight_def viewportPadding_def
        highlightPadding_def)

lemma small_nothing_fits:
  "\<not> (\<exists>q\<in>set priorityOrder. fitsAt (buildPositions small_window scenarioA_region) q)"
  by (simp add: small_positions priorityOrder_def fitsAt_def)

text \<open>
  Claim C1. For every bounding region, every window and every preferred side among the
  eight named placements, if that side's entry of the candidate table has \<open>fits\<close> true,
  then \<open>calculatePosition\<close> returns a result, and its placement is exactly that side.
\<close>

theorem calculatePosition_preferred:
  assumes named: "pref \<in> set priorityOrder"
    and fit: "fitsAt (buildPositions w r) pref"
  shows "\<exists>res. calculatePosition w (Some r) (Some pref) = Some res \<and> placement res = pref"
proof -
  from named have ne: "pref \<noteq> []" and na: "pref \<noteq> ''auto''"
    by (auto simp: priorityOrder_def)
  from fit have key: "map_of (buildPositions w r) pref \<noteq> None"
    by (auto simp: fitsAt_def split: option.splits)
  have sel: "selectPlacement (buildPositions w r) pref = pref"
    using ne na key fit by (simp add: selectPlacement_def)
  from key obtain d where "map_of (buildPositions w r) pref = Some d" by blast
  with sel show ?thesis
    by (simp add: calculatePosition_def Let_def)
qed

text \<open>The theorem at work: on a 1920 by 1080 window the side \<open>right\<close> fits the region
  of scenario A and is returned, though the automatic choice there is \<open>bottom\<close>.\<close>

theorem calculatePosition_preferred_witness:
  "''right'' \<in> set priorityOrder
   \<and> fitsAt (buildPositions scenarioA_window scenarioA_region) ''right''
   \<and> (\<exists>res. calculatePosition scenarioA_window (Some scenarioA_region) (Some ''right'') = Some res
          \<and> placement res = ''right'')"
proof -
  have a: "''right'' \<in> set priorityOrder" by (simp add: priorityOrder_def)
  have b: "fitsAt (buildPositions scenarioA_window scenarioA_region) ''right''"
    by (simp add: scenarioA_positions fitsAt_def)
  show ?thesis using a b calculatePosition_preferred [OF a b] by simp
qed

lemma find_first:
  "find P zs = Some x \<Longrightarrow> \<exists>xs ys. zs = xs @ x # ys \<and> P x \<and> (\<forall>q\<in>set xs. \<not> P q)"
proof (induction zs)
  case Nil
  then show ?case by simp
next
  case (Cons z zs)
  show ?case
  proof (cases "P z")
    case True
    with Cons.prems have "z = x" by simp
    with True have "z # zs = [] @ x # zs \<and> P x \<and> (\<forall>q\<in>set []. \<not> P q)" by simp
    then show ?thesis by blast
  next
    case False
    with Cons.prems have "find P zs = Some x" by simp
    from Cons.IH [OF this] obtain xs ys
      where "zs = xs @ x # ys" "P x" "\<forall>q\<in>set xs. \<not> P q" by blast
    with False have "z # zs = (z # xs) @ x # ys \<and> P x \<and> (\<forall>q\<in>set (z # xs). \<not> P q)"
      by simp
    then show ?thesis by blast
  qed
qed

text \<open>The scan with a best score so far: either nothing exceeds it and the best position
  stays, or the result is the first entry of greatest adjusted score.\<close>

lemma scanBest_Some:
  "(scanBest ps b (Some v) = b \<and> (\<forall>e\<in>set ps. adjustedScore (snd e) \<le> v))
   \<or> (\<exists>xs d ys. ps = xs @ (scanBest ps b (Some v), d) # ys \<and> v < adjustedScore d
         \<and> (\<forall>e\<in>set xs. adjustedScore (snd e) < adjustedScore d)
         \<and> (\<forall>e\<in>set ys. adjustedScore (snd e) \<le> adjustedScore d))"
proof (induction ps arbitrary: b v)
  case Nil
  then show ?case by simp
next
  case (Cons a ps)
  obtain pos d where a: "a = (pos, d)" by (cases a)
  show ?case
  proof (cases "v < adjustedScore d")
    case True
    then have step: "scanBest (a # ps) b (Some v) = scanBest ps pos (Some (adjustedScore d))"
      by (simp add: a)
    from Cons.IH [of pos "adjustedScore d"] show ?thesis
    proof
      assume "scanBest ps pos (Some (adjustedScore d)) = pos
                \<and> (\<forall>e\<in>set ps. adjustedScore (snd e) \<le> adjustedScore d)"
      then have "a # ps = [] @ (scanBest (a # ps) b (Some v), d) # ps \<and> v < adjustedScore d
                   \<and> (\<forall>e\<in>set []. adjustedScore (snd e) < adjustedScore d)
                   \<and> (\<forall>e\<in>set ps. adjustedScore (snd e) \<le> adjustedScore d)"
        using True by (simp add: step a)
      then show ?thesis by blast
    next
      assume "\<exists>xs d' ys. ps = xs @ (scanBest ps pos (Some (adjustedScore d)), d') # ys
                \<and> adjustedScore d < adjustedScore d'
                \<and> (\<forall>e\<in>set xs. adjustedScore (snd e) < adjustedScore d')
                \<and> (\<forall>e\<in>set ys. adjustedScore (snd e) \<le> adjustedScore d')"
      then obtain xs d' ys where h: "ps = xs @ (scanBest ps pos (Some (adjustedScore d)), d') # ys"
          "adjustedScore d < adjustedScore d'"
          "\<forall>e\<in>set xs. adjustedScore (snd e) < adjustedScore d'"
          "\<forall>e\<in>set ys. adjustedScore (snd e) \<le> adjustedScore d'"
        by blast
      have "a # ps = (a # xs) @ (scanBest (a # ps) b (Some v), d') # ys"
        using h(1) by (simp add: step)
      moreover have "v < adjustedScore d'" using True h(2) by simp
      moreover have "\<forall>e\<in>set (a # xs). adjustedScore (snd e) < adjustedScore d'"
        using h(2,3) by (simp add: a)
      ultimately show ?thesis using h(4) by blast
    qed
  next
    case False
    then have step: "scanBest (a # ps) b (Some v) = scanBest ps b (Some v)"
      by (simp add: a)
    from Cons.IH [of b v] show ?thesis
    proof
      assume "scanBest ps b (Some v) = b \<and> (\<forall>e\<in>set ps. adjustedScore (snd e) \<le> v)"
      then show ?thesis using False by (simp add: step a)
    next
      assume "\<exists>xs d' ys. ps = xs @ (scanBest ps b (Some v), d') # ys
                \<and> v < adjustedScore d'
                \<and> (\<forall>e\<in>set xs. adjustedScore (snd e) < adjustedScore d')
                \<and> (\<forall>e\<in>set ys. adjustedScore (snd e) \<le> adjustedScore d')"
      then obtain xs d' ys where h: "ps = xs @ (scanBest ps b (Some v), d') # ys"
          "v < adjustedScore d'"
          "\<forall>e\<in>set xs. adjustedScore (snd e) < adjustedScore d'"
          "\<forall>e\<in>set ys. adjustedScore (snd e) \<le> adjustedScore d'"
        by blast
      have "a # ps = (a # xs) @ (scanBest (a # ps) b (Some v), d') # ys"
        using h(1) by (simp add: step)
      moreover have "\<forall>e\<in>set (a # xs). adjustedScore (snd e) < adjustedScore d'"
        using False h(2,3) by (simp add: a)
      ultimately show ?thesis using h(2,4) by blast
    qed
  qed
qed

lemma scanBest_first_max:
  assumes "ps \<noteq> []"
  shows "\<exists>xs d ys. ps = xs @ (scanBest ps b None, d) # ys
           \<and> (\<forall>e\<in>set xs. adjustedScore (snd e) < adjustedScore d)
           \<and> (\<forall>e\<in>set ys. adjustedScore (snd e) \<le> adjustedScore d)"
proof -
  from assms obtain pos d rest where ps: "ps = (pos, d) # rest"
    by (cases ps) auto
  have step: "scanBest ps b None = scanBest rest pos (Some (adjustedScore d))"
    by (simp add: ps)
  from scanBest_Some [of rest pos "adjustedScore d"] show ?thesis
  proof
    assume "scanBest rest pos (Some (adjustedScore d)) = pos
              \<and> (\<forall>e\<in>set rest. adjustedScore (snd e) \<le> adjustedScore d)"
    then have "ps = [] @ (scanBest ps b None, d) # rest
                 \<and> (\<forall>e\<in>set []. adjustedScore (snd e) < adjustedScore d)
                 \<and> (\<forall>e\<in>set rest. adjustedScore (snd e) \<le> adjustedScore d)"
      by (simp add: step ps)
    then show ?thesis by blast
  next
    assume "\<exists>xs d' ys. rest = xs @ (scanBest rest pos (Some (adjustedScore d)), d') # ys
              \<and> adjustedScore d < adjustedScore d'
              \<and> (\<forall>e\<in>set xs. adjustedScore (snd e) < adjustedScore d')
              \<and> (\<forall>e\<in>set ys. adjustedScore (snd e) \<le> adjustedScore d')"
    then obtain xs d' ys where h: "rest = xs @ (scanBest rest pos (Some (adjustedScore d)), d') # ys"
        "adjustedScore d < adjustedScore d'"
        "\<forall>e\<in>set xs. adjustedScore (snd e) < adjustedScore d'"
        "\<forall>e\<in>set ys. adjustedScore (snd e) \<le> adjustedScore d'"
      by blast
    have "ps = ((pos, d) # xs) @ (scanBest ps b None, d') # ys"
      using h(1) by (simp add: step ps)
    moreover have "\<forall>e\<in>set ((pos, d) # xs). adjustedScore (snd e) < adjustedScore d'"
      using h(2,3) by simp
    ultimately show ?thesis using h(4) by blast
  qed
qed

lemma selectPlacement_no_preference:
  assumes "pref = ''auto'' \<or> \<not> fitsAt ps pref"
  shows "selectPlacement ps pref = findBestPosition ps"
  using assms by (auto simp: selectPlacement_def)

text \<open>
  Claim C2. For every candidate table over the eight placements, when the preferred side
  is \<open>auto\<close> or does not fit, the selected placement is the first entry of the priority
  order that fits, if one fits; otherwise it is the first entry, in the table's iteration
  order, of greatest adjusted score: every entry before it has a strictly smaller adjusted
  score, every entry after it a smaller or equal one. On an empty table the answer is
  \<open>top\<close>.
\<close>

theorem selectPlacement_priority_then_score:
  assumes keys: "fst ` set ps = set priorityOrder"
    and nopref: "pref = ''auto'' \<or> \<not> fitsAt ps pref"
  shows "(if \<exists>q\<in>set priorityOrder. fitsAt ps q
          then \<exists>xs ys. priorityOrder = xs @ selectPlacement ps pref # ys
                 \<and> fitsAt ps (selectPlacement ps pref)
                 \<and> (\<forall>q\<in>set xs. \<not> fitsAt ps q)
          else \<exists>xs d ys. ps = xs @ (selectPlacement ps pref, d) # ys
                 \<and> (\<forall>e\<in>set xs. adjustedScore (snd e) < adjustedScore d)
                 \<and> (\<forall>e\<in>set ys. adjustedScore (snd e) \<le> adjustedScore d))
         \<and> findBestPosition [] = ''top''"
proof -
  have sel: "selectPlacement ps pref = findBestPosition ps"
    using nopref by (rule selectPlacement_no_preference)
  have empty: "findBestPosition [] = ''top''"
    by (simp add: findBestPosition_def fitsAt_def priorityOrder_def)
  show ?thesis
  proof (cases "\<exists>q\<in>set priorityOrder. fitsAt ps q")
    case True
    then obtain pos where f: "find (fitsAt ps) priorityOrder = Some pos"
      by (cases "find (fitsAt ps) priorityOrder") (auto simp: find_None_iff)
    then have "findBestPosition ps = pos" by (simp add: findBestPosition_def)
    with find_first [OF f] True empty show ?thesis by (simp add: sel)
  next
    case False
    then have "find (fitsAt ps) priorityOrder = None" by (simp add: find_None_iff)
    then have fb: "findBestPosition ps = scanBest ps ''top'' None"
      by (simp add: findBestPosition_def)
    have "''top'' \<in> set priorityOrder" by (simp add: priorityOrder_def)
    with keys have "''top'' \<in> fst ` set ps" by simp
    then have "ps \<noteq> []" by auto
    from scanBest_first_max [OF this, of "''top''"] False empty show ?thesis
      by (simp add: sel fb)
  qed
qed

text \<open>The fallback of C2 on the table of a 300 by 200 window, where nothing fits and the
  preferred side is \<open>left\<close>.\<close>

theorem selectPlacement_priority_then_score_witness:
  "fst ` set (buildPositions small_window scenarioA_region) = set priorityOrder
   \<and> \<not> fitsAt (buildPositions small_window scenarioA_region) ''left''
   \<and> \<not> (\<exists>q\<in>set priorityOrder. fitsAt (buildPositions small_window scenarioA_region) q)
   \<and> (\<exists>xs d ys. buildPositions small_window scenarioA_region
          = xs @ (selectPlacement (buildPositions small_window scenarioA_region) ''left'', d) # ys
        \<and> (\<forall>e\<in>set xs. adjustedScore (snd e) < adjustedScore d)
        \<and> (\<forall>e\<in>set ys. adjustedScore (snd e) \<le> adjustedScore d))"
proof -
  have keys: "fst ` set (buildPositions small_window scenarioA_region) = set priorityOrder"
    by (rule buildPositions_keys_set)
  have nofit: "\<not> fitsAt (buildPositions small_window scenarioA_region) ''left''"
    by (simp add: small_positions fitsAt_def)
  then have nopref: "''left'' = ''auto''
      \<or> \<not> fitsAt (buildPositions small_window scenarioA_region) ''left''" by simp
  show ?thesis
    using selectPlacement_priority_then_score [OF keys nopref] keys nofit small_nothing_fits
    by simp
qed

text \<open>
  Claim C3, as amended. For every bounding region, window and preferred side,
  \<open>calculatePosition\<close> returns a tooltip whose top and left are at least 20; the top is at
  most \<open>innerHeight - 250 - 20\<close> when the window is at least 290 high, and the left is at
  most \<open>innerWidth - 320 - 20\<close> when the window is at least 360 wide. (In a smaller window
  the interval of the claim is empty, and the lower bound wins.)
\<close>

theorem calculatePosition_clamp:
  "\<exists>res. calculatePosition w (Some r) pref = Some res
      \<and> 20 \<le> tooltip_top (tooltip res)
      \<and> 20 \<le> tooltip_left (tooltip res)
      \<and> (290 \<le> innerHeight w \<longrightarrow> tooltip_top (tooltip res) \<le> innerHeight w - 250 - 20)
      \<and> (360 \<le> innerWidth w \<longrightarrow> tooltip_left (tooltip res) \<le> innerWidth w - 320 - 20)"
proof -
  obtain d where d: "map_of (buildPositions w r)
      (selectPlacement (buildPositions w r) (case pref of None \<Rightarrow> ''auto'' | Some p \<Rightarrow> p)) = Some d"
    using selectPlacement_key [of w r] by blast
  show ?thesis
    by (simp add: calculatePosition_def Let_def d tooltipWidth_def tooltipHeight_def
          viewportPadding_def)
qed

text \<open>The bounds of C3 on the window of scenario A.\<close>

theorem calculatePosition_clamp_witness:
  "290 \<le> innerHeight scenarioA_window \<and> 360 \<le> innerWidth scenarioA_window
   \<and> (\<exists>res. calculatePosition scenarioA_window (Some scenarioA_region) (Some ''auto'') = Some res
        \<and> 20 \<le> tooltip_top (tooltip res)
        \<and> tooltip_top (tooltip res) \<le> innerHeight scenarioA_window - 250 - 20
        \<and> 20 \<le> tooltip_left (tooltip res)
        \<and> tooltip_left (tooltip res) \<le> innerWidth scenarioA_window - 320 - 20)"
proof -
  have h: "290 \<le> innerHeight scenarioA_window" and v: "360 \<le> innerWidth scenarioA_window"
    by (simp_all add: scenarioA_window_def)
  from calculatePosition_clamp [of scenarioA_window scenarioA_region "Some ''auto''"]
  obtain res where "calculatePosition scenarioA_window (Some scenarioA_region) (Some ''auto'') = Some res"
    "20 \<le> tooltip_top (tooltip res)" "20 \<le> tooltip_left (tooltip res)"
    "290 \<le> innerHeight scenarioA_window \<longrightarrow> tooltip_top (tooltip res) \<le> innerHeight scenarioA_window - 250 - 20"
    "360 \<le> innerWidth scenarioA_window \<longrightarrow> tooltip_left (tooltip res) \<le> innerWidth scenarioA_window - 320 - 20"
    by blast
  with h v show ?thesis by blast
qed

text \<open>
  Claim C3 as stated fails in a window of 300 by 200: the tooltip is put at top 20 and
  left 20, above the upper bounds \<open>200 - 250 - 20 = -70\<close> and \<open>300 - 320 - 20 = -40\<close>.
\<close>

theorem calculatePosition_clamp_counterexample:
  "calculatePosition small_window (Some scenarioA_region) None
     = Some \<lparr>placement = ''top'',
             tooltip = \<lparr>tooltip_top = 20, tooltip_left = 20, tooltip_width = 320\<rparr>,
             arrow = \<lparr>arrow_x = 150, arrow_y = 82, rotation = 180\<rparr>,
             targetCenter = (150, 120)\<rparr>
   \<and> \<not> (tooltip_top (tooltip (the (calculatePosition small_window (Some scenarioA_region) None)))
          \<le> innerHeight small_window - 250 - 20)
   \<and> \<not> (tooltip_left (tooltip (the (calculatePosition small_window (Some scenarioA_region) None)))
          \<le> innerWidth small_window - 320 - 20)"
proof -
  have sel: "selectPlacement (buildPositions small_window scenarioA_region) ''auto'' = ''top''"
    by (simp add: selectPlacement_def findBestPosition_def priorityOrder_def fitsAt_def
          small_positions adjustedScore_def)
  have arr: "calculateArrowPosition ''top'' scenarioA_region
               = \<lparr>arrow_x = 150, arrow_y = 82, rotation = 180\<rparr>"
    by (simp add: calculateArrowPosition_def Let_def scenarioA_region_def highlightPadding_def)
  have lk: "map_of (buildPositions small_window scenarioA_region) ''top''
              = Some \<lparr>score = 84, fits = False, cand_top = -180, cand_left = -10\<rparr>"
    by (simp add: small_positions)
  have res: "calculatePosition small_window (Some scenarioA_region) None
     = Some \<lparr>placement = ''top'',
             tooltip = \<lparr>tooltip_top = 20, tooltip_left = 20, tooltip_width = 320\<rparr>,
             arrow = \<lparr>arrow_x = 150, arrow_y = 82, rotation = 180\<rparr>,
             targetCenter = (150, 120)\<rparr>"
    by (simp add: calculatePosition_def Let_def sel arr lk)
      (simp add: small_window_def scenarioA_region_def
         tooltipWidth_def tooltipHeight_def viewportPadding_def)
  show ?thesis
    unfolding res by (simp add: small_window_def)
qed

text \<open>
  Claim C4. Scenario A: window 1920 by 1080, one target whose rectangle is
  top 100, left 100, width 100, height 40, preferred side \<open>auto\<close>. The region is resolved
  from the document, and on it \<open>calculatePosition\<close> returns placement \<open>bottom\<close> with
  tooltip top 170 and tooltip left 20 (the centred left, -10, clamped).
\<close>

theorem scenarioA_auto_bottom:
  "getCombinedRect scenarioA_document scenarioA_window [Some scenarioA_target]
     = Inr (Some scenarioA_region)
   \<and> calculatePosition scenarioA_window (Some scenarioA_region) (Some ''auto'')
     = Some \<lparr>placement = ''bottom'',
             tooltip = \<lparr>tooltip_top = 170, tooltip_left = 20, tooltip_width = 320\<rparr>,
             arrow = \<lparr>arrow_x = 150, arrow_y = 158, rotation = 0\<rparr>,
             targetCenter = (150, 120)\<rparr>"
proof -
  have sel: "selectPlacement (buildPositions scenarioA_window scenarioA_region) ''auto'' = ''bottom''"
    by (simp add: selectPlacement_def findBestPosition_def priorityOrder_def fitsAt_def
          scenarioA_positions)
  have arr: "calculateArrowPosition ''bottom'' scenarioA_region
               = \<lparr>arrow_x = 150, arrow_y = 158, rotation = 0\<rparr>"
    by (simp add: calculateArrowPosition_def Let_def scenarioA_region_def highlightPadding_def)
  have lk: "map_of (buildPositions scenarioA_window scenarioA_region) ''bottom''
              = Some \<lparr>score = 1092, fits = True, cand_top = 170, cand_left = -10\<rparr>"
    by (simp add: scenarioA_positions)
  have "calculatePosition scenarioA_window (Some scenarioA_region) (Some ''auto'')
     = Some \<lparr>placement = ''bottom'',
             tooltip = \<lparr>tooltip_top = 170, tooltip_left = 20, tooltip_width = 320\<rparr>,
             arrow = \<lparr>arrow_x = 150, arrow_y = 158, rotation = 0\<rparr>,
             targetCenter = (150, 120)\<rparr>"
    by (simp add: calculatePosition_def Let_def sel arr lk)
      (simp add: scenarioA_window_def scenarioA_region_def
         tooltipWidth_def tooltipHeight_def viewportPadding_def)
  with scenarioA_resolves show ?thesis by simp
qed

section \<open>Properties of the target resolver\<close>

lemma rect_copy:
  "\<lparr>rect_top = rect_top r, rect_left = rect_left r, rect_right = rect_right r,
    rect_bottom = rect_bottom r, rect_width = rect_width r, rect_height = rect_height r\<rparr>
     = (r :: rect)"
  by simp

lemma collectRects_Cons:
  "collectRects doc (t # ts) =
     (case getTargetElement doc t of
        Inl err \<Rightarrow> Inl err
      | Inr None \<Rightarrow> collectRects doc ts
      | Inr (Some e) \<Rightarrow>
          (case collectRects doc ts of
             Inl err \<Rightarrow> Inl err
           | Inr rects \<Rightarrow> Inr (getBoundingClientRect e # rects)))"
  by (simp add: Let_def rect_copy split: sum.splits option.splits)

lemma collectRects_skip:
  assumes "getTargetElement doc t = Inr None"
  shows "collectRects doc (ts1 @ t # ts2) = collectRects doc (ts1 @ ts2)"
  using assms
  by (induction ts1)
     (auto simp: collectRects_Cons simp del: collectRects.simps(2)
           split: sum.splits option.splits)





lemma getCombinedRect_cong:
  "collectRects doc ts = collectRects doc ts' \<Longrightarrow> getCombinedRect doc w ts = getCombinedRect doc w ts'"
  by (simp add: getCombinedRect_def)


lemma two_document_lookups:
  "getTargetElement two_document (Some scenarioA_target)
     = Inr (Some \<lparr>getBoundingClientRect = scenarioA_rect\<rparr>)"
  "getTargetElement two_document (Some box_target)
     = Inr (Some \<lparr>getBoundingClientRect = other_rect\<rparr>)"
  "getTargetElement two_document (Some missing_box_target) = Inr None"
  "getTargetElement two_document (Some digit_class_target) = Inl SyntaxError"
  by (simp_all add: getTargetElement_def two_document_def scenarioA_target_def box_target_def
        missing_box_target_def digit_class_target_def truthy_def)



text \<open>
  Claim C10. A descriptor whose id is a non-empty string that matches no element resolves
  to null whatever its className: the class selector is not tried. Such a descriptor
  contributes no rectangle, so the combined region is the same without it.
\<close>

theorem getTargetElement_id_no_class_fallback:
  assumes id: "target_id t = Some i" "i \<noteq> []"
    and nomatch: "getElementById doc i = None"
  shows "getTargetElement doc (Some t) = Inr None
         \<and> collectRects doc (ts1 @ Some t # ts2) = collectRects doc (ts1 @ ts2)
         \<and> getCombinedRect doc w (ts1 @ Some t # ts2) = getCombinedRect doc w (ts1 @ ts2)"
proof -
  have n: "getTargetElement doc (Some t) = Inr None"
    using id nomatch by (simp add: getTargetElement_def truthy_def)
  have c: "collectRects doc (ts1 @ Some t # ts2) = collectRects doc (ts1 @ ts2)"
    using n by (rule collectRects_skip)
  from n c getCombinedRect_cong [OF c] show ?thesis by simp
qed

text \<open>The descriptor has the id \<open>missing\<close>, which no element has, and the class \<open>box\<close>,
  whose selector does match an element of the document.\<close>

theorem getTargetElement_id_no_class_fallback_witness:
  "target_id missing_box_target = Some ''missing'' \<and> ''missing'' \<noteq> []
   \<and> getElementById two_document ''missing'' = None
   \<and> querySelector two_document (''.'' @ the (target_className missing_box_target))
        = Inr (Some \<lparr>getBoundingClientRect = other_rect\<rparr>)
   \<and> getTargetElement two_document (Some missing_box_target) = Inr None
   \<and> getCombinedRect two_document scenarioA_window [Some scenarioA_target, Some missing_box_target]
        = getCombinedRect two_document scenarioA_window [Some scenarioA_target]"
proof -
  have a: "target_id missing_box_target = Some ''missing''" and b: "''missing'' \<noteq> []"
    by (simp_all add: missing_box_target_def)
  have c: "getElementById two_document ''missing'' = None"
    by (simp add: two_document_def)
  have d: "querySelector two_document (''.'' @ the (target_className missing_box_target))
        = Inr (Some \<lparr>getBoundingClientRect = other_rect\<rparr>)"
    by (simp add: two_document_def missing_box_target_def)
  from getTargetElement_id_no_class_fallback
         [OF a b c, of "[Some scenarioA_target]" "[]" scenarioA_window] a b c d
  show ?thesis by simp
qed

lemma collectRects_set:
  "collectRects doc ts = Inr rects \<Longrightarrow>
   set rects = {getBoundingClientRect e | t e. t \<in> set ts \<and> getTargetElement doc t = Inr (Some e)}"
proof (induction ts arbitrary: rects)
  case Nil
  then show ?case by simp
next
  case (Cons a ts)
  show ?case
  proof (cases "getTargetElement doc a")
    case (Inl err)
    with Cons.prems show ?thesis by (simp add: collectRects_Cons del: collectRects.simps(2))
  next
    case (Inr r)
    show ?thesis
    proof (cases r)
      case None
      with Inr Cons.prems have "collectRects doc ts = Inr rects"
        by (simp add: collectRects_Cons del: collectRects.simps(2))
      from Cons.IH [OF this] Inr None show ?thesis by auto
    next
      case (Some e)
      with Inr Cons.prems obtain rs where rs: "collectRects doc ts = Inr rs"
        and rects: "rects = getBoundingClientRect e # rs"
        by (auto simp: collectRects_Cons simp del: collectRects.simps(2) split: sum.splits)
      from Cons.IH [OF rs] Inr Some rects show ?thesis by auto
    qed
  qed
qed

text \<open>
  Claim C8. When the loop collects at least one rectangle, \<open>getCombinedRect\<close> returns a
  region that keeps the list of resolved rectangles and contains each of them: its
  viewport left and top are at most, and its viewport right and bottom at least, those of
  every resolved element. Each of the four edges is the edge of one of the rectangles (so
  they are the minima and maxima), and the document-relative top and left are the
  viewport top and left plus \<open>scrollY\<close> and \<open>scrollX\<close>.
\<close>

theorem getCombinedRect_contains:
  assumes rects: "collectRects doc ts = Inr rects"
    and ne: "rects \<noteq> []"
  shows "\<exists>reg. getCombinedRect doc w ts = Inr (Some reg)
           \<and> individualRects reg = rects
           \<and> (\<forall>t\<in>set ts. \<forall>e. getTargetElement doc t = Inr (Some e) \<longrightarrow>
                  viewportLeft reg \<le> rect_left (getBoundingClientRect e)
                \<and> viewportTop reg \<le> rect_top (getBoundingClientRect e)
                \<and> rect_right (getBoundingClientRect e) \<le> viewportRight reg
                \<and> rect_bottom (getBoundingClientRect e) \<le> viewportBottom reg)
           \<and> viewportLeft reg \<in> rect_left ` set (individualRects reg)
           \<and> viewportTop reg \<in> rect_top ` set (individualRects reg)
           \<and> viewportRight reg \<in> rect_right ` set (individualRects reg)
           \<and> viewportBottom reg \<in> rect_bottom ` set (individualRects reg)
           \<and> region_top reg = viewportTop reg + scrollY w
           \<and> region_left reg = viewportLeft reg + scrollX w"
proof -
  let ?reg = "\<lparr>region_top = Min (set (map rect_top rects)) + scrollY w,
               region_left = Min (set (map rect_left rects)) + scrollX w,
               region_width = Max (set (map rect_right rects)) - Min (set (map rect_left rects)),
               region_height = Max (set (map rect_bottom rects)) - Min (set (map rect_top rects)),
               viewportTop = Min (set (map rect_top rects)),
               viewportLeft = Min (set (map rect_left rects)),
               viewportRight = Max (set (map rect_right rects)),
               viewportBottom = Max (set (map rect_bottom rects)),
               individualRects = rects\<rparr>"
  have res: "getCombinedRect doc w ts = Inr (Some ?reg)"
    using rects ne by (simp add: getCombinedRect_def Let_def)
  have nes: "set rects \<noteq> {}" using ne by simp
  have inside: "viewportLeft ?reg \<le> rect_left (getBoundingClientRect e)
                \<and> viewportTop ?reg \<le> rect_top (getBoundingClientRect e)
                \<and> rect_right (getBoundingClientRect e) \<le> viewportRight ?reg
                \<and> rect_bottom (getBoundingClientRect e) \<le> viewportBottom ?reg"
    if "t \<in> set ts" "getTargetElement doc t = Inr (Some e)" for t e
  proof -
    from that have "getBoundingClientRect e \<in> set rects"
      unfolding collectRects_set [OF rects] by blast
    then show ?thesis by simp
  qed
  have l: "viewportLeft ?reg \<in> rect_left ` set (individualRects ?reg)"
    using Min_in [of "rect_left ` set rects"] nes by simp
  have t: "viewportTop ?reg \<in> rect_top ` set (individualRects ?reg)"
    using Min_in [of "rect_top ` set rects"] nes by simp
  have r: "viewportRight ?reg \<in> rect_right ` set (individualRects ?reg)"
    using Max_in [of "rect_right ` set rects"] nes by simp
  have b: "viewportBottom ?reg \<in> rect_bottom ` set (individualRects ?reg)"
    using Max_in [of "rect_bottom ` set rects"] nes by simp
  have "individualRects ?reg = rects" "region_top ?reg = viewportTop ?reg + scrollY w"
    "region_left ?reg = viewportLeft ?reg + scrollX w" by simp_all
  with res inside l t r b show ?thesis by blast
qed

lemma two_document_rects:
  "collectRects two_document [Some scenarioA_target, Some missing_box_target, Some box_target]
     = Inr [scenarioA_rect, other_rect]"
  by (simp add: collectRects_Cons two_document_lookups del: collectRects.simps(2))

text \<open>Two resolved rectangles and one missing target, in a window scrolled by (5, 250).\<close>

theorem getCombinedRect_contains_witness:
  "collectRects two_document [Some scenarioA_target, Some missing_box_target, Some box_target]
     = Inr [scenarioA_rect, other_rect]
   \<and> [scenarioA_rect, other_rect] \<noteq> []
   \<and> getCombinedRect two_document scrolled_window
        [Some scenarioA_target, Some missing_box_target, Some box_target]
      = Inr (Some \<lparr>region_top = 300, region_left = 105, region_width = 300, region_height = 90,
              viewportTop = 50, viewportLeft = 100, viewportRight = 400, viewportBottom = 140,
              individualRects = [scenarioA_rect, other_rect]\<rparr>)"
proof -
  have ne: "[scenarioA_rect, other_rect] \<noteq> []" by simp
  from getCombinedRect_contains [OF two_document_rects ne, of scrolled_window]
  obtain reg where reg: "getCombinedRect two_document scrolled_window
        [Some scenarioA_target, Some missing_box_target, Some box_target] = Inr (Some reg)"
    by blast
  have "reg = \<lparr>region_top = 300, region_left = 105, region_width = 300, region_height = 90,
              viewportTop = 50, viewportLeft = 100, viewportRight = 400, viewportBottom = 140,
              individualRects = [scenarioA_rect, other_rect]\<rparr>"
    using reg
    unfolding getCombinedRect_def Let_def two_document_rects
    by (simp add: scenarioA_rect_def other_rect_def scrolled_window_def)
  with two_document_rects reg show ?thesis by simp
qed

section \<open>Properties of the retry controller and of Next\<close>

lemma tour_sorted: "sortedSteps tour_props = [step_a, step_b]"
  by (simp add: sortedSteps_def tour_props_def step_a_def step_b_def)

lemma tour_sorted': "sortedSteps (tour_props\<lparr>onNavigate := False\<rparr>) = [step_a, step_b]"
  by (simp add: sortedSteps_def tour_props_def step_a_def step_b_def)


lemma skip_sets_no_timer:
  "SetTimeout cb d \<notin> set (fst (skipToNextValidStep p i st))"
  by (simp add: skipToNextValidStep_def Let_def)


lemma skip_keeps_counter:
  "retryCount (snd (skipToNextValidStep p i st)) = retryCount st"
  by (simp add: skipToNextValidStep_def Let_def)

lemma update_unresolved_retry:
  assumes "stepAt p i = Some cur"
    and "getCombinedRect doc w (getStepTargets cur) = Inr None"
    and "retryCount st < maxRetries"
  shows "updateTargetPosition p i doc w True st
           = Inr ([SetTimeout (RetryUpdate i) 200], st\<lparr>retryCount := Suc (retryCount st)\<rparr>)"
  using assms by (simp add: updateTargetPosition_def)

lemma update_unresolved_exhausted:
  assumes "stepAt p i = Some cur"
    and "getCombinedRect doc w (getStepTargets cur) = Inr None"
    and "retryCount st \<ge> maxRetries"
  shows "updateTargetPosition p i doc w withRetry st
           = Inr (Warn (step_no cur) # fst (skipToNextValidStep p i (st\<lparr>retryCount := 0\<rparr>)),
                  snd (skipToNextValidStep p i (st\<lparr>retryCount := 0\<rparr>)))"
  using assms by (simp add: updateTargetPosition_def split: prod.splits)






lemma run_append:
  "run p w (xs @ ys) s = (case run p w xs s of Inl err \<Rightarrow> Inl err | Inr s' \<Rightarrow> run p w ys s')"
  by (induction xs arbitrary: s) (auto split: sum.splits)

text \<open>One retry timer pending, that of the render of step \<open>i\<close>, and nothing found: the
  timer fires, the counter goes up by one and the timer is set again.\<close>

lemma fire_retry_again:
  assumes "stepAt p i = Some cur"
    and "getCombinedRect doc w (getStepTargets cur) = Inr None"
    and "retryCount st < maxRetries"
  shows "runTask p w (FireTimer 0, doc) \<lparr>state = st, pending = [RetryUpdate i], trace = tr\<rparr>
           = Inr \<lparr>state = st\<lparr>retryCount := Suc (retryCount st)\<rparr>, pending = [RetryUpdate i],
                  trace = tr @ [SetTimeout (RetryUpdate i) 200]\<rparr>"
  using assms
  by (simp add: runTask_def commitResult_def commit_def update_unresolved_retry)


lemma retry_chain_climbs:
  assumes "stepAt p i = Some cur"
    and "\<forall>d\<in>set docs. getCombinedRect d w (getStepTargets cur) = Inr None"
    and "retryCount st + length docs \<le> maxRetries"
  shows "run p w (map (Pair (FireTimer 0)) docs) \<lparr>state = st, pending = [RetryUpdate i], trace = tr\<rparr>
           = Inr \<lparr>state = st\<lparr>retryCount := retryCount st + length docs\<rparr>,
                  pending = [RetryUpdate i],
                  trace = tr @ replicate (length docs) (SetTimeout (RetryUpdate i) 200)\<rparr>"
  using assms
proof (induction docs arbitrary: st tr)
  case Nil
  then show ?case by simp
next
  case (Cons d docs)
  have lt: "retryCount st < maxRetries" using Cons.prems(3) by simp
  have un: "getCombinedRect d w (getStepTargets cur) = Inr None" using Cons.prems(2) by simp
  have rest: "\<forall>d\<in>set docs. getCombinedRect d w (getStepTargets cur) = Inr None"
    using Cons.prems(2) by simp
  have le: "retryCount (st\<lparr>retryCount := Suc (retryCount st)\<rparr>) + length docs \<le> maxRetries"
    using Cons.prems(3) by simp
  show ?case
    using Cons.IH [OF Cons.prems(1) rest le, of "tr @ [SetTimeout (RetryUpdate i) 200]"]
    by (simp add: fire_retry_again [OF Cons.prems(1) un lt] replicate_append_same)
qed


lemma tour_fields:
  "onNavigate tour_props" "isOpen tour_props"
  "path step_a = Some ''/a''" "path step_b = Some ''/b''"
  "nextPath step_a = None" "step_no step_a = 1" "step_no step_b = 2" "\<not> onNext step_a"
  by (simp_all add: tour_props_def step_a_def step_b_def)

lemma tour_current: "currentStep tour_props opened = Some step_a"
  by (simp add: currentStep_def at_index_def tour_sorted opened_def)

lemma tour_stepAt: "stepAt tour_props 0 = Some step_a"
  by (simp add: stepAt_def at_index_def tour_sorted)

lemma tour_unresolved:
  "getCombinedRect scenarioA_document w (getStepTargets step_a) = Inr None"
  by (simp add: getCombinedRect_def getStepTargets_def step_a_def truthy_def
        getTargetElement_def scenarioA_document_def)

lemma tour_skip:
  "skipToNextValidStep tour_props 0 (opened\<lparr>retryCount := 0\<rparr>)
     = ([OnStepChange (Some 2) (Some ''/b''), OnNavigate ''/b''], opened\<lparr>currentStepIndex := 1\<rparr>)"
  by (simp add: skipToNextValidStep_def lastIndex_def tour_sorted at_index_def opened_def
        Let_def truthy_def tour_fields)













lemma retries_iterate:
  "n \<le> 15 \<Longrightarrow>
   ((\<lambda>s. snd (projr (updateTargetPosition tour_props 0 scenarioA_document scenarioA_window
                        True s))) ^^ n)
       opened = opened\<lparr>retryCount := n\<rparr>"
proof (induction n)
  case 0
  then show ?case by (simp add: opened_def)
next
  case (Suc n)
  have lt: "retryCount (opened\<lparr>retryCount := n\<rparr>) < maxRetries"
    using Suc.prems by (simp add: maxRetries_def)
  from Suc show ?case
    by (simp add: update_unresolved_retry [OF tour_stepAt tour_unresolved lt])
qed

lemma retries_spent_eq: "retries_spent = opened\<lparr>retryCount := 15\<rparr>"
  unfolding retries_spent_def by (rule retries_iterate) simp

text \<open>A pass from a scroll or resize event never sets a timer and never raises the
  counter, and below the budget it does nothing when the targets are not found.\<close>

lemma passive_pass_sets_no_timer:
  "handlePositionUpdate p doc w st = Inr r \<Longrightarrow> SetTimeout cb d \<notin> set (fst r)"
  using skip_sets_no_timer [of cb d p "currentStepIndex st" "st\<lparr>retryCount := 0\<rparr>"]
  by (auto simp: handlePositionUpdate_def updateTargetPosition_def
           split: option.splits sum.splits prod.splits if_splits)

lemma passive_pass_counter:
  "handlePositionUpdate p doc w st = Inr r \<Longrightarrow> retryCount (snd r) \<le> retryCount st"
  using skip_keeps_counter [of p "currentStepIndex st" "st\<lparr>retryCount := 0\<rparr>"]
  by (auto simp: handlePositionUpdate_def updateTargetPosition_def
           split: option.splits sum.splits prod.splits if_splits)

lemma passive_pass_below_budget:
  assumes "currentStep p st = Some cur"
    and "getCombinedRect doc w (getStepTargets cur) = Inr None"
    and "retryCount st < maxRetries"
  shows "handlePositionUpdate p doc w st = Inr ([], st)"
  using assms
  by (simp add: handlePositionUpdate_def updateTargetPosition_def currentStep_def stepAt_def)

text \<open>
  Claim C6 says that a pass from a scroll or resize event never triggers the exhaustion
  skip. The state \<open>retries_spent\<close> is reached by 15 attempts with retry that found
  nothing (the effect and 14 firings): its counter is 15 and the last retry timer is
  pending. A scroll event in that state, with the targets still missing, warns, resets
  the counter and skips to the next step: the last branch of \<open>updateTargetPosition\<close>
  does not look at \<open>withRetry\<close>.
\<close>

theorem passive_pass_skips_at_budget:
  "retryCount retries_spent = 15
   \<and> currentStepIndex retries_spent = 0
   \<and> getCombinedRect scenarioA_document scenarioA_window
        (getStepTargets (the (currentStep tour_props retries_spent))) = Inr None
   \<and> handlePositionUpdate tour_props scenarioA_document scenarioA_window retries_spent
       = Inr ([Warn 1, OnStepChange (Some 2) (Some ''/b''), OnNavigate ''/b''],
              opened\<lparr>currentStepIndex := 1\<rparr>)
   \<and> handlePositionUpdate tour_props scenarioA_document scenarioA_window retries_spent
       \<noteq> Inr ([], retries_spent)
   \<and> run tour_props scenarioA_window
         ((RunEffect, scenarioA_document)
            # map (Pair (FireTimer 0)) (replicate 14 scenarioA_document))
         started
       = Inr \<lparr>state = retries_spent, pending = [RetryUpdate 0],
              trace = replicate 15 (SetTimeout (RetryUpdate 0) 200)\<rparr>
   \<and> run tour_props scenarioA_window
         ((RunEffect, scenarioA_document)
            # map (Pair (FireTimer 0)) (replicate 14 scenarioA_document)
            @ [(ScrollOrResize, scenarioA_document)])
         started
       = Inr \<lparr>state = opened\<lparr>currentStepIndex := 1\<rparr>, pending = [RetryUpdate 0],
              trace = replicate 15 (SetTimeout (RetryUpdate 0) 200)
                        @ [Warn 1, OnStepChange (Some 2) (Some ''/b''), OnNavigate ''/b'']\<rparr>"
proof -
  have cur: "currentStep tour_props retries_spent = Some step_a"
    using tour_current by (simp add: retries_spent_eq currentStep_def)
  have i: "currentStepIndex retries_spent = 0" by (simp add: retries_spent_eq opened_def)
  have ge: "retryCount retries_spent \<ge> maxRetries"
    by (simp add: retries_spent_eq maxRetries_def)
  have sk: "skipToNextValidStep tour_props 0 (retries_spent\<lparr>retryCount := 0\<rparr>)
     = ([OnStepChange (Some 2) (Some ''/b''), OnNavigate ''/b''], opened\<lparr>currentStepIndex := 1\<rparr>)"
    using tour_skip by (simp add: retries_spent_eq)
  have h: "handlePositionUpdate tour_props scenarioA_document scenarioA_window retries_spent
       = Inr ([Warn 1, OnStepChange (Some 2) (Some ''/b''), OnNavigate ''/b''],
              opened\<lparr>currentStepIndex := 1\<rparr>)"
    unfolding handlePositionUpdate_def
    by (simp add: i update_unresolved_exhausted [OF tour_stepAt tour_unresolved ge] sk
          tour_fields)
  have entry: "runTask tour_props scenarioA_window (RunEffect, scenarioA_document) started
                 = Inr \<lparr>state = opened\<lparr>retryCount := Suc 0\<rparr>, pending = [RetryUpdate 0],
                        trace = [SetTimeout (RetryUpdate 0) 200]\<rparr>"
  proof -
    have lt: "retryCount opened < maxRetries" by (simp add: opened_def maxRetries_def)
    have i0: "currentStepIndex opened = 0" and c0: "retryCount opened = 0"
      by (simp_all add: opened_def)
    show ?thesis
      by (simp add: runTask_def commitResult_def commit_def started_def tour_fields i0 c0
            update_unresolved_retry [OF tour_stepAt tour_unresolved lt])
  qed
  have climb: "run tour_props scenarioA_window
                 (map (Pair (FireTimer 0)) (replicate 14 scenarioA_document))
                 \<lparr>state = opened\<lparr>retryCount := Suc 0\<rparr>, pending = [RetryUpdate 0],
                  trace = [SetTimeout (RetryUpdate 0) 200]\<rparr>
             = Inr \<lparr>state = retries_spent, pending = [RetryUpdate 0],
                    trace = replicate 15 (SetTimeout (RetryUpdate 0) 200)\<rparr>"
  proof -
    have u: "\<forall>d\<in>set (replicate 14 scenarioA_document).
               getCombinedRect d scenarioA_window (getStepTargets step_a) = Inr None"
      by (simp add: tour_unresolved)
    have le: "retryCount (opened\<lparr>retryCount := Suc 0\<rparr>) + length (replicate 14 scenarioA_document)
                \<le> maxRetries"
      by (simp add: maxRetries_def)
    show ?thesis
      using retry_chain_climbs [OF tour_stepAt u le, of "[SetTimeout (RetryUpdate 0) 200]"]
      by (simp add: retries_spent_eq replicate_append_same [symmetric] eval_nat_numeral)
  qed
  have reach: "run tour_props scenarioA_window
         ((RunEffect, scenarioA_document)
            # map (Pair (FireTimer 0)) (replicate 14 scenarioA_document))
         started
       = Inr \<lparr>state = retries_spent, pending = [RetryUpdate 0],
              trace = replicate 15 (SetTimeout (RetryUpdate 0) 200)\<rparr>"
    by (simp add: entry climb del: map_replicate)
  have scroll: "runTask tour_props scenarioA_window (ScrollOrResize, scenarioA_document)
                 \<lparr>state = retries_spent, pending = [RetryUpdate 0],
                  trace = replicate 15 (SetTimeout (RetryUpdate 0) 200)\<rparr>
             = Inr \<lparr>state = opened\<lparr>currentStepIndex := 1\<rparr>, pending = [RetryUpdate 0],
              trace = replicate 15 (SetTimeout (RetryUpdate 0) 200)
                        @ [Warn 1, OnStepChange (Some 2) (Some ''/b''), OnNavigate ''/b'']\<rparr>"
    by (simp add: runTask_def commitResult_def commit_def tour_fields h)
  have after: "run tour_props scenarioA_window
         ((RunEffect, scenarioA_document)
            # map (Pair (FireTimer 0)) (replicate 14 scenarioA_document)
            @ [(ScrollOrResize, scenarioA_document)])
         started
       = Inr \<lparr>state = opened\<lparr>currentStepIndex := 1\<rparr>, pending = [RetryUpdate 0],
              trace = replicate 15 (SetTimeout (RetryUpdate 0) 200)
                        @ [Warn 1, OnStepChange (Some 2) (Some ''/b''), OnNavigate ''/b'']\<rparr>"
    by (simp add: entry run_append climb scroll del: map_replicate)
  have ne: "handlePositionUpdate tour_props scenarioA_document scenarioA_window retries_spent
       \<noteq> Inr ([], retries_spent)"
    unfolding h by simp
  have c15: "retryCount retries_spent = 15" by (simp add: retries_spent_eq)
  have un: "getCombinedRect scenarioA_document scenarioA_window
        (getStepTargets (the (currentStep tour_props retries_spent))) = Inr None"
    by (simp add: cur tour_unresolved)
  from c15 i un h ne reach after show ?thesis by simp
qed

text \<open>
  Claim C9, as amended. On a step that is not the last, \<open>handleNext\<close> first calls the
  step's \<open>onNext\<close> if it has one. Then, if the current step has a non-empty \<open>nextPath\<close>
  or the next step has a non-empty \<open>path\<close> different from the current step's, and the
  host supplied \<open>onNavigate\<close>, it calls \<open>onNavigate\<close> (with \<open>nextPath\<close> if there is
  one, else the next step's path) and sets a timer of 50 ms; the step index is unchanged
  until the timer fires, which sets the index and calls \<open>onStepChange\<close>. In every other
  case it sets the index and calls \<open>onStepChange\<close> at once.
\<close>

theorem handleNext_navigation:
  assumes active: "currentStepIndex st < length (sortedSteps p)"
    and notlast: "\<not> isLastStep p st"
    and c: "c = sortedSteps p ! currentStepIndex st"
    and n: "n = sortedSteps p ! (currentStepIndex st + 1)"
  shows "handleNext p st =
           (if (truthy (nextPath c) \<or> (truthy (path n) \<and> path n \<noteq> path c)) \<and> onNavigate p
            then ((if onNext c then [StepOnNext] else [])
                    @ [OnNavigate (the (if truthy (nextPath c) then nextPath c else path n)),
                       SetTimeout (Advance (currentStepIndex st + 1) (Some (step_no n)) (path n)) 50],
                  st)
            else ((if onNext c then [StepOnNext] else [])
                    @ [OnStepChange (Some (step_no n)) (path n)],
                  st\<lparr>currentStepIndex := currentStepIndex st + 1\<rparr>))
         \<and> (\<forall>doc w s. fire (Advance (currentStepIndex st + 1) (Some (step_no n)) (path n)) p doc w s
                = Inr ([OnStepChange (Some (step_no n)) (path n)],
                       s\<lparr>currentStepIndex := currentStepIndex st + 1\<rparr>))"
proof -
  have cur: "currentStep p st = Some c"
    using active c by (simp add: currentStep_def at_index_def)
  from active notlast have "currentStepIndex st + 1 < length (sortedSteps p)"
    by (simp add: isLastStep_def)
  then have nx: "at_index (sortedSteps p) (Suc (currentStepIndex st)) = Some n"
    using n by (simp add: at_index_def)
  show ?thesis
  proof (cases "(truthy (nextPath c) \<or> (truthy (path n) \<and> path n \<noteq> path c)) \<and> onNavigate p")
    case True
    then have "truthy (if truthy (nextPath c) then nextPath c else path n)" by auto
    with True notlast show ?thesis
      by (auto simp: handleNext_def Let_def cur nx)
  next
    case False
    with notlast show ?thesis
      by (simp add: handleNext_def Let_def cur nx)
  qed
qed

text \<open>Next on the first step of the two-page tour.\<close>

theorem handleNext_navigation_witness:
  "currentStepIndex opened < length (sortedSteps tour_props)
   \<and> \<not> isLastStep tour_props opened
   \<and> step_a = sortedSteps tour_props ! currentStepIndex opened
   \<and> step_b = sortedSteps tour_props ! (currentStepIndex opened + 1)
   \<and> handleNext tour_props opened
       = ([OnNavigate ''/b'', SetTimeout (Advance 1 (Some 2) (Some ''/b'')) 50], opened)"
proof -
  have a: "currentStepIndex opened < length (sortedSteps tour_props)"
    by (simp add: tour_sorted opened_def)
  have b: "\<not> isLastStep tour_props opened"
    by (simp add: isLastStep_def tour_sorted opened_def)
  have c: "step_a = sortedSteps tour_props ! currentStepIndex opened"
    by (simp add: tour_sorted opened_def)
  have d: "step_b = sortedSteps tour_props ! (currentStepIndex opened + 1)"
    by (simp add: tour_sorted opened_def)
  have i: "currentStepIndex opened + 1 = 1" by (simp add: opened_def)
  from handleNext_navigation [OF a b c d] a b c d show ?thesis
    unfolding i by (simp add: tour_fields truthy_def)
qed

text \<open>
  Claim C9 as stated fails when the host supplies no \<open>onNavigate\<close>: the next step is on
  another page, yet no navigation is signalled and the index advances at once.
\<close>

theorem handleNext_navigation_counterexample:
  "sortedSteps (tour_props\<lparr>onNavigate := False\<rparr>) = [step_a, step_b]
   \<and> currentStepIndex opened = 0
   \<and> truthy (path step_b) \<and> path step_b \<noteq> path step_a
   \<and> handleNext (tour_props\<lparr>onNavigate := False\<rparr>) opened
       = ([OnStepChange (Some 2) (Some ''/b'')], opened\<lparr>currentStepIndex := 1\<rparr>)"
proof -
  have h: "handleNext (tour_props\<lparr>onNavigate := False\<rparr>) opened
       = ([OnStepChange (Some 2) (Some ''/b'')], opened\<lparr>currentStepIndex := 1\<rparr>)"
    by (simp add: handleNext_def currentStep_def isLastStep_def tour_sorted' at_index_def
          opened_def Let_def truthy_def tour_fields)
  show ?thesis
    unfolding h tour_sorted' by (simp add: tour_fields truthy_def opened_def)
qed

end
